theory Spec2Isabelle
  imports Main "HOL-Library.Sublist" "HOL-Library.Log_Nat"
begin

section \<open>Bytes and strings\<close>

text \<open>
  A Go \<^verbatim>\<open>string\<close> and a \<^verbatim>\<open>[]byte\<close> are both sequences of bytes; the model
  uses \<^typ>\<open>string\<close>, a list of 8-bit characters, for both.  Non-ASCII text is the
  list of its UTF-8 bytes, as it is in Go.
\<close>

abbreviation LF :: char where "LF \<equiv> CHR 0x0A"
abbreviation CR :: char where "CR \<equiv> CHR 0x0D"

definition byte :: "char \<Rightarrow> nat" where
  "byte c = of_char c"

definition is_digit :: "char \<Rightarrow> bool" where
  "is_digit c = (48 \<le> byte c \<and> byte c \<le> 57)"

subsection \<open>Packages \<^verbatim>\<open>strings\<close> and \<^verbatim>\<open>bytes\<close>\<close>

definition HasPrefix :: "string \<Rightarrow> string \<Rightarrow> bool" where
  "HasPrefix s p = (take (length p) s = p)"

definition HasSuffix :: "string \<Rightarrow> string \<Rightarrow> bool" where
  "HasSuffix s p = (length p \<le> length s \<and> drop (length s - length p) s = p)"

fun Contains :: "string \<Rightarrow> string \<Rightarrow> bool" where
  "Contains [] sub = (sub = [])"
| "Contains (x # xs) sub = (HasPrefix (x # xs) sub \<or> Contains xs sub)"

text \<open>
  \<^verbatim>\<open>strings.Split(s, sep)\<close> for a separator of one byte, which is how both call sites
  use it (\<^verbatim>\<open>"/"\<close> and \<^verbatim>\<open>" "\<close>).  The result is never empty: a string without the
  separator is returned as its only element.
\<close>

fun Split :: "string \<Rightarrow> char \<Rightarrow> string list" where
  "Split [] sep = [[]]"
| "Split (x # xs) sep =
     (if x = sep then [] # Split xs sep
      else (case Split xs sep of
              [] \<Rightarrow> [[x]]
            | y # ys \<Rightarrow> (x # y) # ys))"

text \<open>\<^verbatim>\<open>strings.ReplaceAll(s, old, "")\<close> for a one-byte \<^verbatim>\<open>old\<close>.\<close>

definition RemoveAll :: "string \<Rightarrow> char \<Rightarrow> string" where
  "RemoveAll s old = filter (\<lambda>c. c \<noteq> old) s"

text \<open>
  \<^verbatim>\<open>bytes.IndexAny(data, chars)\<close> for ASCII \<^verbatim>\<open>chars\<close>: the index of the first byte
  of \<^verbatim>\<open>data\<close> that is one of \<^verbatim>\<open>chars\<close>; \<open>None\<close> stands for Go's \<open>-1\<close>.
\<close>

fun IndexAny :: "string \<Rightarrow> string \<Rightarrow> nat option" where
  "IndexAny [] chars = None"
| "IndexAny (x # xs) chars =
     (if x \<in> set chars then Some 0 else map_option Suc (IndexAny xs chars))"

text \<open>
  \<^verbatim>\<open>strings.TrimSpace\<close> removes leading and trailing white space as
  \<^verbatim>\<open>unicode.IsSpace\<close> defines it.  \<open>white_space\<close> lists the UTF-8 encodings of those
  code points: U+0009 to U+000D, U+0020, U+0085, U+00A0, U+1680, U+2000 to U+200A, U+2028,
  U+2029, U+202F, U+205F and U+3000.
\<close>

definition white_space :: "string list" where
  "white_space =
     [[CHR 0x09], [CHR 0x0A], [CHR 0x0B], [CHR 0x0C], [CHR 0x0D], [CHR 0x20],
      [CHR 0xC2, CHR 0x85], [CHR 0xC2, CHR 0xA0], [CHR 0xE1, CHR 0x9A, CHR 0x80],
      [CHR 0xE2, CHR 0x80, CHR 0x80], [CHR 0xE2, CHR 0x80, CHR 0x81],
      [CHR 0xE2, CHR 0x80, CHR 0x82], [CHR 0xE2, CHR 0x80, CHR 0x83],
      [CHR 0xE2, CHR 0x80, CHR 0x84], [CHR 0xE2, CHR 0x80, CHR 0x85],
      [CHR 0xE2, CHR 0x80, CHR 0x86], [CHR 0xE2, CHR 0x80, CHR 0x87],
      [CHR 0xE2, CHR 0x80, CHR 0x88], [CHR 0xE2, CHR 0x80, CHR 0x89],
      [CHR 0xE2, CHR 0x80, CHR 0x8A], [CHR 0xE2, CHR 0x80, CHR 0xA8],
      [CHR 0xE2, CHR 0x80, CHR 0xA9], [CHR 0xE2, CHR 0x80, CHR 0xAF],
      [CHR 0xE2, CHR 0x81, CHR 0x9F], [CHR 0xE3, CHR 0x80, CHR 0x80]]"

function TrimLeftSpace :: "string \<Rightarrow> string" where
  "TrimLeftSpace s =
     (case find (HasPrefix s) white_space of
        Some w \<Rightarrow> TrimLeftSpace (drop (length w) s)
      | None \<Rightarrow> s)"
  by pat_completeness auto
termination
proof -
  have shorter: "length (drop (length w) s) < length s"
    if "find (HasPrefix s) white_space = Some w" for s w
  proof -
    from that have "w \<in> set white_space" and t: "take (length w) s = w"
      by (auto simp: find_Some_iff HasPrefix_def)
    then have "0 < length w"
      by (auto simp: white_space_def)
    moreover have "length (take (length w) s) = min (length s) (length w)"
      by simp
    with t have "length w \<le> length s"
      by simp
    ultimately show ?thesis
      unfolding length_drop by linarith
  qed
  show ?thesis
    by (relation "measure length") (auto dest: shorter)
qed

function TrimRightSpace :: "string \<Rightarrow> string" where
  "TrimRightSpace s =
     (case find (HasSuffix s) white_space of
        Some w \<Rightarrow> TrimRightSpace (take (length s - length w) s)
      | None \<Rightarrow> s)"
  by pat_completeness auto
termination
proof -
  have shorter: "length (take (length s - length w) s) < length s"
    if "find (HasSuffix s) white_space = Some w" for s w
  proof -
    from that have "w \<in> set white_space" and "length w \<le> length s"
      by (auto simp: find_Some_iff HasSuffix_def)
    moreover from this have "0 < length w"
      by (auto simp: white_space_def)
    ultimately show ?thesis
      unfolding length_take by linarith
  qed
  show ?thesis
    by (relation "measure length") (auto dest: shorter)
qed

definition TrimSpace :: "string \<Rightarrow> string" where
  "TrimSpace s = TrimRightSpace (TrimLeftSpace s)"

subsection \<open>\<^verbatim>\<open>strconv.Atoi\<close>\<close>

text \<open>
  Go's \<^verbatim>\<open>int\<close> is taken to be 64 bits wide (as on amd64 and arm64).
  \<^verbatim>\<open>Atoi\<close> accepts an optional sign followed by one or more decimal digits.  On a
  syntax error it returns 0 with an error; on a value outside the range of \<^verbatim>\<open>int\<close>
  it returns the nearest bound with an error.  Every caller in task.go drops the
  error, so the model returns the value alone.
\<close>

definition MaxInt64 :: int where
  "MaxInt64 = 2 ^ 63 - 1"

definition MinInt64 :: int where
  "MinInt64 = - (2 ^ 63)"

definition digit_val :: "char \<Rightarrow> nat" where
  "digit_val c = byte c - 48"

definition dec_value :: "string \<Rightarrow> nat" where
  "dec_value ds = foldl (\<lambda>n c. 10 * n + digit_val c) 0 ds"

definition numeric :: "string \<Rightarrow> bool" where
  "numeric ds = (ds \<noteq> [] \<and> list_all is_digit ds)"

definition Atoi :: "string \<Rightarrow> int" where
  "Atoi s =
     (case s of
        [] \<Rightarrow> 0
      | c # cs \<Rightarrow>
          if c = CHR ''-'' then (if numeric cs then max MinInt64 (- int (dec_value cs)) else 0)
          else if c = CHR ''+'' then (if numeric cs then min MaxInt64 (int (dec_value cs)) else 0)
          else if numeric s then min MaxInt64 (int (dec_value s))
          else 0)"

text \<open>Subtraction of two \<^verbatim>\<open>int\<close>s wraps around.\<close>

definition wrap64 :: "int \<Rightarrow> int" where
  "wrap64 i = (i + 2 ^ 63) mod 2 ^ 64 - 2 ^ 63"

subsection \<open>\<^verbatim>\<open>float64\<close>\<close>

text \<open>
  A \<^verbatim>\<open>float64\<close> is a finite binary64 number, held as the rational it denotes, an
  infinity or NaN.  The two zeros are identified: no operation of task.go tells them
  apart.  \<open>round64\<close> rounds a rational to the nearest binary64 number, ties to the even
  significand, with gradual underflow and overflow to infinity: \<open>ilog2 a\<close> is the binary
  exponent of \<open>a > 0\<close>, \<open>quantum a\<close> the spacing of binary64 numbers around \<open>a\<close>.
\<close>

datatype float64 = Fin rat | PInf | NInf | NaN

definition pow2 :: "int \<Rightarrow> rat" where
  "pow2 e = (if 0 \<le> e then 2 ^ nat e else 1 / 2 ^ nat (- e))"

definition ilog2 :: "rat \<Rightarrow> int" where
  "ilog2 x =
     (if 1 \<le> x then int (floorlog 2 (nat \<lfloor>x\<rfloor>)) - 1
      else - int (floorlog 2 (nat (\<lceil>1 / x\<rceil> - 1))))"

definition round_even :: "rat \<Rightarrow> int" where
  "round_even m =
     (if m - of_int \<lfloor>m\<rfloor> < 1 / 2 then \<lfloor>m\<rfloor>
      else if 1 / 2 < m - of_int \<lfloor>m\<rfloor> then \<lfloor>m\<rfloor> + 1
      else if even \<lfloor>m\<rfloor> then \<lfloor>m\<rfloor> else \<lfloor>m\<rfloor> + 1)"

definition quantum :: "rat \<Rightarrow> rat" where
  "quantum a = pow2 (max (ilog2 a) (- 1022) - 52)"

definition round_mag :: "rat \<Rightarrow> rat" where
  "round_mag a = of_int (round_even (a / quantum a)) * quantum a"

definition round64 :: "rat \<Rightarrow> float64" where
  "round64 x =
     (if x = 0 then Fin 0
      else if pow2 1024 \<le> round_mag \<bar>x\<bar> then (if 0 < x then PInf else NInf)
      else Fin (if 0 < x then round_mag \<bar>x\<bar> else - round_mag \<bar>x\<bar>))"

text \<open>
  The non-negative binary64 numbers: a significand below \<open>2\<^sup>5\<^sup>3\<close> times a power of two
  that is at least \<open>2\<^sup>-\<^sup>1\<^sup>0\<^sup>7\<^sup>4\<close>.
\<close>

definition binary64 :: "rat \<Rightarrow> bool" where
  "binary64 r = (\<exists>k j. r = of_int k * pow2 j \<and> 0 \<le> k \<and> k < 2 ^ 53 \<and> - 1074 \<le> j)"

fun fmul :: "float64 \<Rightarrow> float64 \<Rightarrow> float64" where
  "fmul NaN y = NaN"
| "fmul x NaN = NaN"
| "fmul (Fin a) (Fin b) = round64 (a * b)"
| "fmul (Fin a) PInf = (if a = 0 then NaN else if 0 < a then PInf else NInf)"
| "fmul (Fin a) NInf = (if a = 0 then NaN else if 0 < a then NInf else PInf)"
| "fmul PInf (Fin b) = (if b = 0 then NaN else if 0 < b then PInf else NInf)"
| "fmul NInf (Fin b) = (if b = 0 then NaN else if 0 < b then NInf else PInf)"
| "fmul PInf PInf = PInf"
| "fmul PInf NInf = NInf"
| "fmul NInf PInf = NInf"
| "fmul NInf NInf = PInf"

text \<open>
  Division; the only division of task.go has a divisor of at least 1, so the sign of a
  zero divisor, which the model does not have, is never asked for.
\<close>

fun fdiv :: "float64 \<Rightarrow> float64 \<Rightarrow> float64" where
  "fdiv NaN y = NaN"
| "fdiv x NaN = NaN"
| "fdiv (Fin a) (Fin b) =
     (if b = 0 then (if a = 0 then NaN else if 0 < a then PInf else NInf)
      else round64 (a / b))"
| "fdiv (Fin a) PInf = Fin 0"
| "fdiv (Fin a) NInf = Fin 0"
| "fdiv PInf (Fin b) = (if 0 \<le> b then PInf else NInf)"
| "fdiv NInf (Fin b) = (if 0 \<le> b then NInf else PInf)"
| "fdiv PInf PInf = NaN"
| "fdiv PInf NInf = NaN"
| "fdiv NInf PInf = NaN"
| "fdiv NInf NInf = NaN"

text \<open>\<^verbatim>\<open>math.Max\<close>: positive infinity wins, then NaN.\<close>

fun Max_float64 :: "float64 \<Rightarrow> float64 \<Rightarrow> float64" where
  "Max_float64 PInf y = PInf"
| "Max_float64 x PInf = PInf"
| "Max_float64 NaN y = NaN"
| "Max_float64 x NaN = NaN"
| "Max_float64 NInf y = y"
| "Max_float64 x NInf = x"
| "Max_float64 (Fin a) (Fin b) = Fin (max a b)"

text \<open>The conversion \<^verbatim>\<open>float64(i)\<close> of an integer.\<close>

definition float64_of_int :: "int \<Rightarrow> float64" where
  "float64_of_int i = round64 (of_int i)"

text \<open>
  Two things are left to the platform.  \<open>ParseFloat_other\<close> is what
  \<^verbatim>\<open>strconv.ParseFloat\<close> returns for the inputs the model below does not decide:
  exponent, hexadecimal, underscore, infinity and NaN forms, whose treatment has changed
  between Go releases.  \<open>int64_other\<close> is the result of converting to \<^verbatim>\<open>int64\<close> a
  float that is NaN, infinite or out of range, which the Go specification leaves to the
  implementation.  Theorems hold for every platform.
\<close>

record platform =
  ParseFloat_other :: "string \<Rightarrow> float64"
  int64_other :: "float64 \<Rightarrow> int"

definition trunc :: "rat \<Rightarrow> int" where
  "trunc x = (if 0 \<le> x then \<lfloor>x\<rfloor> else - \<lfloor>- x\<rfloor>)"

definition int64_of_float64 :: "platform \<Rightarrow> float64 \<Rightarrow> int" where
  "int64_of_float64 pf f =
     (case f of
        Fin x \<Rightarrow>
          if MinInt64 \<le> trunc x \<and> trunc x \<le> MaxInt64 then trunc x
          else wrap64 (int64_other pf f)
      | _ \<Rightarrow> wrap64 (int64_other pf f))"

subsection \<open>\<^verbatim>\<open>strconv.ParseFloat\<close>\<close>

text \<open>
  \<^verbatim>\<open>ParseFloat(s, 64)\<close>, with the error dropped as its caller drops it.  A plain
  decimal (an optional sign, digits with at most one point, at least one digit) is rounded
  to the nearest \<^verbatim>\<open>float64\<close>.  Every other valid input holds one of the characters
  \<^verbatim>\<open>eExX_nN\<close> and only characters of \<open>float_chars\<close>; such inputs are left to the
  platform.  Anything else is a syntax error, for which \<^verbatim>\<open>ParseFloat\<close> returns 0.
\<close>

definition float_chars :: string where
  "float_chars = ''0123456789+-._abcdefABCDEFxXpPiInNtTyY''"

text \<open>
  \<open>parse_decimal\<close> reads a plain decimal: whether it has a minus sign, and the rational
  its digits denote.
\<close>

definition parse_decimal :: "string \<Rightarrow> (bool \<times> rat) option" where
  "parse_decimal s =
     (let neg = HasPrefix s ''-'';
          body = (if HasPrefix s ''-'' \<or> HasPrefix s ''+'' then drop 1 s else s);
          ip = takeWhile is_digit body;
          rest = dropWhile is_digit body;
          fp = (if HasPrefix rest ''.'' then takeWhile is_digit (drop 1 rest) else []);
          tail = (if HasPrefix rest ''.'' then dropWhile is_digit (drop 1 rest) else rest)
      in if tail = [] \<and> ip @ fp \<noteq> [] then
           Some (neg, of_nat (dec_value (ip @ fp)) / 10 ^ length fp)
         else None)"

definition ParseFloat :: "platform \<Rightarrow> string \<Rightarrow> float64" where
  "ParseFloat pf s =
     (case parse_decimal s of
        Some (neg, v) \<Rightarrow> round64 (if neg then - v else v)
      | None \<Rightarrow>
          if list_all (\<lambda>c. c \<in> set float_chars) s \<and> list_ex (\<lambda>c. c \<in> set ''eExX_nN'') s
          then ParseFloat_other pf s
          else Fin 0)"

subsection \<open>Package \<^verbatim>\<open>unicode/utf8\<close>\<close>

text \<open>
  The width in bytes of the first rune of a string, as \<^verbatim>\<open>utf8.DecodeRune\<close> reports
  it: an invalid or truncated encoding is one byte wide.
\<close>

definition in_range :: "nat \<Rightarrow> nat \<Rightarrow> string \<Rightarrow> nat \<Rightarrow> bool" where
  "in_range lo hi s i = (i < length s \<and> lo \<le> byte (s ! i) \<and> byte (s ! i) \<le> hi)"

definition rune_width :: "string \<Rightarrow> nat" where
  "rune_width s =
     (case s of
        [] \<Rightarrow> 0
      | c # _ \<Rightarrow>
          let b = byte c;
              cont = in_range 0x80 0xBF s in
          if b < 0x80 then 1
          else if 0xC2 \<le> b \<and> b \<le> 0xDF then (if cont 1 then 2 else 1)
          else if b = 0xE0 then (if in_range 0xA0 0xBF s 1 \<and> cont 2 then 3 else 1)
          else if b = 0xED then (if in_range 0x80 0x9F s 1 \<and> cont 2 then 3 else 1)
          else if 0xE1 \<le> b \<and> b \<le> 0xEF then (if cont 1 \<and> cont 2 then 3 else 1)
          else if b = 0xF0 then (if in_range 0x90 0xBF s 1 \<and> cont 2 \<and> cont 3 then 4 else 1)
          else if 0xF1 \<le> b \<and> b \<le> 0xF3 then (if cont 1 \<and> cont 2 \<and> cont 3 then 4 else 1)
          else if b = 0xF4 then (if in_range 0x80 0x8F s 1 \<and> cont 2 \<and> cont 3 then 4 else 1)
          else 1)"

subsection \<open>Package \<^verbatim>\<open>regexp\<close>\<close>

text \<open>
  The three patterns of task.go are sequences of single characters and character
  classes, each taken once or repeated greedily, around one capture group.  \<open>cls\<close> are
  the classes: a literal byte, \<^verbatim>\<open>.\<close> (any rune but a line feed), \<^verbatim>\<open>\d\<close> and
  \<^verbatim>\<open>\S\<close> (any rune but tab, line feed, form feed, carriage return and space).
  \<open>node\<close> are the items of a pattern: an item taken once, \<^verbatim>\<open>+\<close>, \<^verbatim>\<open>*\<close>, and the
  two parentheses of the group.

  Go's \<^verbatim>\<open>regexp\<close> returns the leftmost match, and among the matches that start there
  the one a backtracking search finds first.  \<open>rmatch\<close> is that search from one start
  position: it returns the end of the match and the bounds of the group.  \<open>Find\<close> tries
  the start positions from left to right.
\<close>

datatype cls = Lit char | AnyChar | Digit | NonSpace

datatype node = One cls | Plus cls | Star cls | GroupOpen | GroupClose

fun accept :: "cls \<Rightarrow> string \<Rightarrow> nat option" where
  "accept c [] = None"
| "accept (Lit a) (x # xs) = (if x = a then Some 1 else None)"
| "accept Digit (x # xs) = (if is_digit x then Some 1 else None)"
| "accept AnyChar (x # xs) = (if x = LF then None else Some (rune_width (x # xs)))"
| "accept NonSpace (x # xs) =
     (if x \<in> set [CHR 0x09, LF, CHR 0x0C, CR, CHR '' ''] then None
      else Some (rune_width (x # xs)))"

function rmatch :: "node list \<Rightarrow> string \<Rightarrow> nat \<Rightarrow> nat \<times> nat \<Rightarrow> (nat \<times> nat \<times> nat) option" where
  "rmatch [] s pos cap = Some (pos, cap)"
| "rmatch (GroupOpen # r) s pos cap = rmatch r s pos (pos, snd cap)"
| "rmatch (GroupClose # r) s pos cap = rmatch r s pos (fst cap, pos)"
| "rmatch (One c # r) s pos cap =
     (case accept c s of
        None \<Rightarrow> None
      | Some w \<Rightarrow> rmatch r (drop w s) (pos + w) cap)"
| "rmatch (Plus c # r) s pos cap =
     (case accept c s of
        None \<Rightarrow> None
      | Some w \<Rightarrow> rmatch (Star c # r) (drop w s) (pos + w) cap)"
| "rmatch (Star c # r) s pos cap =
     (case accept c s of
        None \<Rightarrow> rmatch r s pos cap
      | Some w \<Rightarrow>
          (case rmatch (Star c # r) (drop w s) (pos + w) cap of
             Some m \<Rightarrow> Some m
           | None \<Rightarrow> rmatch r s pos cap))"
  by pat_completeness auto
termination
proof -
  have width: "0 < rune_width s" if "s \<noteq> []" for s
    using that by (cases s) (auto simp: rune_width_def Let_def)
  have consumed: "0 < w \<and> s \<noteq> []" if "accept c s = Some w" for c s w
    using that by (cases "(c, s)" rule: accept.cases) (auto simp: width split: if_splits)
  show ?thesis
    by (relation "measures [\<lambda>(r, s, pos, cap). length s, \<lambda>(r, s, pos, cap). length r]")
       (auto dest: consumed)
qed

fun Find :: "node list \<Rightarrow> string \<Rightarrow> nat \<Rightarrow> (nat \<times> nat \<times> nat \<times> nat) option" where
  "Find re [] pos =
     (case rmatch re [] pos (pos, pos) of
        Some (e, cap) \<Rightarrow> Some (pos, e, cap)
      | None \<Rightarrow> None)"
| "Find re (x # xs) pos =
     (case rmatch re (x # xs) pos (pos, pos) of
        Some (e, cap) \<Rightarrow> Some (pos, e, cap)
      | None \<Rightarrow> Find re xs (pos + 1))"

definition substr :: "string \<Rightarrow> nat \<Rightarrow> nat \<Rightarrow> string" where
  "substr s b e = take (e - b) (drop b s)"

text \<open>
  \<^verbatim>\<open>FindAllStringSubmatch(s, n)\<close>: at most \<open>n\<close> successive matches, each the list of
  the whole match and the group.  No pattern of task.go matches the empty string, so
  the next search starts where the last match ended.
\<close>

fun FindAllStringSubmatch :: "node list \<Rightarrow> string \<Rightarrow> nat \<Rightarrow> nat \<Rightarrow> string list list" where
  "FindAllStringSubmatch re s pos 0 = []"
| "FindAllStringSubmatch re s pos (Suc n) =
     (case Find re (drop pos s) pos of
        None \<Rightarrow> []
      | Some (b, e, gb, ge) \<Rightarrow>
          [substr s b e, substr s gb ge] # FindAllStringSubmatch re s e n)"

section \<open>matcher.go\<close>

text \<open>
  Modelled from the spec: matcher.go, with \<^verbatim>\<open>newMatcher\<close> and the methods
  \<^verbatim>\<open>Match\<close>, \<^verbatim>\<open>Extract\<close> and \<^verbatim>\<open>ExtractAllStringSubmatch\<close>, is not among the
  sources.  The spec calls the matchers regular-expression-based extractors that are
  stateless and line-local; task.go and its tests fix the rest: \<^verbatim>\<open>newMatcher\<close> compiles
  its pattern, \<^verbatim>\<open>Match\<close> tells whether the pattern matches somewhere in the line,
  \<^verbatim>\<open>Extract\<close> returns the first capture of the first match (the empty string without
  one), and \<^verbatim>\<open>ExtractAllStringSubmatch\<close> returns up to the given number of matches
  with their captures.  A compiled pattern is the list of its items.
\<close>

definition Match :: "node list \<Rightarrow> string \<Rightarrow> bool" where
  "Match m data = (Find m data 0 \<noteq> None)"

definition Extract :: "node list \<Rightarrow> string \<Rightarrow> string" where
  "Extract m data =
     (let matches = FindAllStringSubmatch m data 0 1 in
      if length matches = 0 \<or> length (matches ! 0) < 2 then []
      else matches ! 0 ! 1)"

definition ExtractAllStringSubmatch :: "node list \<Rightarrow> string \<Rightarrow> nat \<Rightarrow> string list list" where
  "ExtractAllStringSubmatch m data submatchCount = FindAllStringSubmatch m data 0 submatchCount"

section \<open>task.go\<close>

record State =
  Remain :: int
  Total :: int
  Speed :: string
  Progress :: float64
  Filename :: string
  TransferedBytes :: int
  TransferedPercent :: int

record Log =
  Stderr :: string
  Stdout :: string

text \<open>Of a \<^verbatim>\<open>Task\<close>, the state and the log; the \<^verbatim>\<open>rsync\<close> command is left out.\<close>

record Task =
  state :: State
  tlog :: Log

subsection \<open>The line splitter\<close>

text \<open>
  \<^verbatim>\<open>scanProgressLines\<close> is a \<^verbatim>\<open>bufio.SplitFunc\<close>.  It returns how many bytes to
  consume, the token, and an error that is always \<^verbatim>\<open>nil\<close>.  A \<^verbatim>\<open>nil\<close> token
  (\<open>None\<close>) tells the scanner that no line is ready; the slice \<^verbatim>\<open>data[0:i]\<close> is
  never \<^verbatim>\<open>nil\<close>, also when it is empty.
\<close>

datatype error = Error string

definition scanProgressLines :: "string \<Rightarrow> bool \<Rightarrow> nat \<times> string option \<times> error option" where
  "scanProgressLines data atEOF =
     (if atEOF \<and> length data = 0 then (0, None, None)
      else
        (case IndexAny data [CR, LF] of
           Some i \<Rightarrow>
             if data ! i = LF then (i + 1, Some (take i data), None)
             else
               (let advance = i + 1;
                    advance = (if length data > i + 1 \<and> data ! (i + 1) = LF
                               then advance + 1 else advance)
                in (advance, Some (take i data), None))
         | None \<Rightarrow>
             if atEOF then (length data, Some data, None)
             else (0, None, None)))"

subsection \<open>The counter parser\<close>

definition getTaskProgress :: "string \<Rightarrow> int \<times> int" where
  "getTaskProgress remTotalString =
     (let info = Split remTotalString (CHR ''/'') in
      if length info < 2 then (0, 0)
      else
        (let remain = Atoi (info ! 0);
             total = Atoi (info ! 1)
         in (remain, total)))"

subsection \<open>The speed and size parsers\<close>

definition getTaskSpeed :: "string list list \<Rightarrow> string" where
  "getTaskSpeed data =
     (if length data < 1 \<or> length (data ! 0) < 1 then []
      else data ! 0 ! 0)"

definition units :: "string list" where
  "units = [''KB'', ''K'', ''MB'', ''M'', ''GB'', ''G'', ''TB'', ''T'']"

text \<open>The power of 1024 that the switch of \<^verbatim>\<open>getTaskTransfered\<close> gives a unit.\<close>

definition unit_exponent :: "string \<Rightarrow> nat" where
  "unit_exponent u =
     (if u = ''KB'' \<or> u = ''K'' then 1
      else if u = ''MB'' \<or> u = ''M'' then 2
      else if u = ''GB'' \<or> u = ''G'' then 3
      else if u = ''TB'' \<or> u = ''T'' then 4
      else 0)"

text \<open>
  The loop over \<open>units\<close>: the first unit that is a suffix of \<open>s\<close>, with \<open>s\<close> cut before
  it; without one, the empty unit and \<open>s\<close> itself.
\<close>

fun strip_unit :: "string list \<Rightarrow> string \<Rightarrow> string \<times> string" where
  "strip_unit [] s = ([], s)"
| "strip_unit (u # us) s =
     (if HasSuffix s u then (u, take (length s - length u) s)
      else strip_unit us s)"

definition getTaskTransfered :: "platform \<Rightarrow> string \<Rightarrow> int \<times> int" where
  "getTaskTransfered pf transfered =
     (let info = Split transfered (CHR '' '') in
      if length info < 2 then (0, 0)
      else
        (let percentStr = info ! (length info - 1);
             transferedPercent = Atoi percentStr;
             unit = fst (strip_unit units (info ! 0));
             numberStr = snd (strip_unit units (info ! 0));
             numberStr = RemoveAll numberStr (CHR '','');
             numberStr = TrimSpace numberStr;
             number = ParseFloat pf numberStr;
             k = Fin 1024;
             transferedBytes =
               (if unit = ''KB'' \<or> unit = ''K'' then int64_of_float64 pf (fmul number k)
                else if unit = ''MB'' \<or> unit = ''M'' then
                  int64_of_float64 pf (fmul (fmul number k) k)
                else if unit = ''GB'' \<or> unit = ''G'' then
                  int64_of_float64 pf (fmul (fmul (fmul number k) k) k)
                else if unit = ''TB'' \<or> unit = ''T'' then
                  int64_of_float64 pf (fmul (fmul (fmul (fmul number k) k) k) k)
                else int64_of_float64 pf number)
         in (transferedBytes, transferedPercent)))"

subsection \<open>The filename classifier\<close>

definition verbose :: "string list" where
  "verbose =
     [''building file list '',
      ''sending '',
      ''created '',
      ''done'',
      ''total '',
      ''total: '',
      ''client '',
      ''server '',
      ''to consider'',
      ''to-chk='',
      ''to-check='']"

definition isFilename :: "string \<Rightarrow> bool" where
  "isFilename str =
     (if str = [] then False
      else if HasPrefix str ''      '' then False
      else if HasPrefix str '' '' then False
      else if list_ex (Contains str) verbose then False
      else if HasPrefix str ''sent'' then False
      else if HasSuffix str ''/'' then False
      else True)"

subsection \<open>The drains\<close>

text \<open>
  The three patterns of \<^verbatim>\<open>processStdout\<close>:
  \<^verbatim>\<open>\(.+-chk=(\d+.\d+)\<close>, \<^verbatim>\<open>(\d+\.\d+.{2}\/s)\<close> and \<^verbatim>\<open>(\S+.*)%\<close>.
\<close>

definition lits :: "string \<Rightarrow> node list" where
  "lits s = map (\<lambda>c. One (Lit c)) s"

definition progressMatcher :: "node list" where
  "progressMatcher =
     lits ''('' @ [Plus AnyChar] @ lits ''-chk='' @
     [GroupOpen, Plus Digit, One AnyChar, Plus Digit, GroupClose]"

definition speedMatcher :: "node list" where
  "speedMatcher =
     [GroupOpen, Plus Digit] @ lits ''.'' @ [Plus Digit, One AnyChar, One AnyChar] @
     lits ''/s'' @ [GroupClose]"

definition transferedMatcher :: "node list" where
  "transferedMatcher = [GroupOpen, Plus NonSpace, Star AnyChar, GroupClose] @ lits ''%''"

definition maxPercents :: float64 where
  "maxPercents = Fin 100"

definition minDivider :: int where
  "minDivider = 1"

text \<open>
  The body of the loop of \<^verbatim>\<open>processStdout\<close>: what one line \<^verbatim>\<open>logStr\<close> of the
  scanner does to the task.
\<close>

definition processLine :: "platform \<Rightarrow> Task \<Rightarrow> string \<Rightarrow> Task" where
  "processLine pf task logStr =
     (let st = state task;
          st = (if Match progressMatcher logStr then
                  (let rt = getTaskProgress (Extract progressMatcher logStr);
                       st = st\<lparr>Remain := fst rt, Total := snd rt\<rparr>;
                       copiedCount = float64_of_int (wrap64 (Total st - Remain st))
                   in st\<lparr>Progress :=
                        fmul (fdiv copiedCount
                                (Max_float64 (float64_of_int (Total st)) (float64_of_int minDivider)))
                          maxPercents\<rparr>)
                else st);
          st = (if Match speedMatcher logStr then
                  st\<lparr>Speed := getTaskSpeed (ExtractAllStringSubmatch speedMatcher logStr 2)\<rparr>
                else st);
          st = (if Match transferedMatcher logStr then
                  (let bp = getTaskTransfered pf (Extract transferedMatcher logStr)
                   in st\<lparr>TransferedBytes := fst bp, TransferedPercent := snd bp\<rparr>)
                else st);
          st = (if isFilename logStr then st\<lparr>Filename := logStr\<rparr> else st)
      in \<lparr>state = st, tlog = (tlog task)\<lparr>Stdout := Stdout (tlog task) @ logStr @ [LF]\<rparr>\<rparr>)"

text \<open>
  The drains, over the lines their scanners yield: \<^verbatim>\<open>processStdout\<close> splits with
  \<^verbatim>\<open>scanProgressLines\<close>, \<^verbatim>\<open>processStderr\<close> with the scanner's default.
\<close>

definition processStdout :: "platform \<Rightarrow> Task \<Rightarrow> string list \<Rightarrow> Task" where
  "processStdout pf task lines = foldl (processLine pf) task lines"

definition processStderr :: "Task \<Rightarrow> string list \<Rightarrow> Task" where
  "processStderr task lines =
     foldl (\<lambda>t line. t\<lparr>tlog := (tlog t)\<lparr>Stderr := Stderr (tlog t) @ line @ [LF]\<rparr>\<rparr>) task lines"

section \<open>Facts about the library models\<close>

lemma HasPrefix_iff_prefix: "HasPrefix s p \<longleftrightarrow> prefix p s"
  unfolding HasPrefix_def prefix_def
  by (metis append_eq_conv_conj append_take_drop_id)

lemma HasSuffix_iff_suffix: "HasSuffix s p \<longleftrightarrow> suffix p s"
  unfolding HasSuffix_def suffix_def
  by (metis append_eq_conv_conj append_take_drop_id diff_add_inverse2 le_add2 length_append)

lemma Contains_iff_sublist: "Contains s sub \<longleftrightarrow> sublist sub s"
  by (induction s) (auto simp: HasPrefix_iff_prefix sublist_Cons_right)

lemma Split_no_sep: "sep \<notin> set s \<Longrightarrow> Split s sep = [s]"
  by (induction s) auto



lemma IndexAny_None: "IndexAny s cs = None \<longleftrightarrow> set s \<inter> set cs = {}"
  by (induction s) auto

lemma IndexAny_Some:
  "set a \<inter> set cs = {} \<Longrightarrow> c \<in> set cs \<Longrightarrow> IndexAny (a @ c # b) cs = Some (length a)"
  by (induction a) auto



lemmas eval_defs =
  HasPrefix_def HasSuffix_def RemoveAll_def is_digit_def byte_def numeric_def
  dec_value_def digit_val_def Atoi_def MaxInt64_def MinInt64_def

section \<open>The line splitter\<close>

lemma scan_LF:
  assumes "set pre \<inter> {CR, LF} = {}"
  shows "scanProgressLines (pre @ LF # rest) atEOF = (length pre + 1, Some pre, None)"
proof -
  have "IndexAny (pre @ LF # rest) [CR, LF] = Some (length pre)"
    using assms by (intro IndexAny_Some) auto
  then show ?thesis by (simp add: scanProgressLines_def)
qed

lemma scan_CR:
  assumes "set pre \<inter> {CR, LF} = {}"
  shows "scanProgressLines (pre @ CR # rest) atEOF =
           (if take 1 rest = [LF] then length pre + 2 else length pre + 1, Some pre, None)"
proof -
  have "IndexAny (pre @ CR # rest) [CR, LF] = Some (length pre)"
    using assms by (intro IndexAny_Some) auto
  then show ?thesis
    by (cases rest) (simp_all add: scanProgressLines_def nth_append)
qed

lemma scan_no_delimiter:
  assumes "set data \<inter> {CR, LF} = {}"
  shows "scanProgressLines data atEOF =
           (if atEOF \<and> data \<noteq> [] then (length data, Some data, None) else (0, None, None))"
proof -
  have "IndexAny data [CR, LF] = None"
    using assms by (simp add: IndexAny_None)
  then show ?thesis by (simp add: scanProgressLines_def)
qed

text \<open>
  C5 (as amended).  Let \<open>pre\<close> hold neither a carriage return nor a line feed.
  \<^item> If the first delimiter is a line feed, the line is \<open>pre\<close> and the line feed is consumed.
  \<^item> If the first delimiter is a carriage return, the line is \<open>pre\<close>; the carriage return is
    consumed, and so is a line feed that follows it immediately (one terminator), while a
    carriage return followed by anything else, or by nothing, ends the line alone.
  \<^item> With no delimiter and the input exhausted, a non-empty \<open>pre\<close> is the final line.
  \<^item> With no delimiter and more input to come, no line is produced and nothing is consumed.
  \<^item> With nothing left and the input exhausted, no line is produced either: the function
    returns a \<^verbatim>\<open>nil\<close> token, not an empty final line.
\<close>

theorem scanProgressLines_spec:
  "set pre \<inter> {CR, LF} = {} \<Longrightarrow>
     scanProgressLines (pre @ LF # rest) atEOF = (length pre + 1, Some pre, None) \<and>
     scanProgressLines (pre @ CR # LF # rest) atEOF = (length pre + 2, Some pre, None) \<and>
     (take 1 rest \<noteq> [LF] \<longrightarrow>
        scanProgressLines (pre @ CR # rest) atEOF = (length pre + 1, Some pre, None)) \<and>
     (pre \<noteq> [] \<longrightarrow> scanProgressLines pre True = (length pre, Some pre, None)) \<and>
     scanProgressLines pre False = (0, None, None) \<and>
     scanProgressLines [] True = (0, None, None)"
  by (simp add: scan_LF scan_CR scan_no_delimiter)

theorem scanProgressLines_spec_witness:
  "scanProgressLines (''ab'' @ LF # ''cd'') False = (3, Some ''ab'', None) \<and>
   scanProgressLines (''ab'' @ CR # LF # ''cd'') False = (4, Some ''ab'', None) \<and>
   scanProgressLines (''ab'' @ CR # ''cd'') False = (3, Some ''ab'', None) \<and>
   scanProgressLines ''ab'' True = (2, Some ''ab'', None) \<and>
   scanProgressLines ''ab'' False = (0, None, None)"
  using scanProgressLines_spec [of "''ab''" "''cd''" False] by simp

text \<open>
  C5 as stated fails on the empty input at end of stream: there is no delimiter and the
  input is exhausted, yet the remaining (zero) bytes are not yielded as a final line.
\<close>

theorem scanProgressLines_empty_counterexample:
  "set [] \<inter> {CR, LF} = {} \<and>
   scanProgressLines [] True \<noteq> (length ([] :: string), Some [], None) \<and>
   scanProgressLines [] True = (0, None, None)"
  by (simp add: scanProgressLines_def)

section \<open>The counter parser\<close>





section \<open>The filename classifier\<close>

text \<open>
  C7.  A line is accepted as a filename exactly when it is non-empty, does not start with a
  space, contains none of the strings of \<^const>\<open>verbose\<close>, does not start with \<open>sent\<close>
  and does not end with \<open>/\<close>.  So \<open>some/path/file.txt\<close> is accepted,
  \<open>sending incremental file list\<close> is rejected, and so are every line with one or more
  leading spaces and every line that ends with \<open>/\<close>.
\<close>

theorem isFilename_spec:
  "(isFilename s \<longleftrightarrow>
      s \<noteq> [] \<and> \<not> prefix '' '' s \<and> (\<forall>v \<in> set verbose. \<not> sublist v s)
      \<and> \<not> prefix ''sent'' s \<and> \<not> suffix ''/'' s) \<and>
   verbose = [''building file list '', ''sending '', ''created '', ''done'', ''total '',
     ''total: '', ''client '', ''server '', ''to consider'', ''to-chk='', ''to-check=''] \<and>
   isFilename ''some/path/file.txt'' \<and>
   \<not> isFilename ''sending incremental file list'' \<and>
   (0 < n \<longrightarrow> \<not> isFilename (replicate n (CHR '' '') @ r)) \<and>
   \<not> isFilename (r @ ''/'')"
proof -
  have "prefix ''      '' s \<Longrightarrow> prefix '' '' s"
    by (auto simp: prefix_def)
  then have iff: "isFilename s \<longleftrightarrow>
      s \<noteq> [] \<and> \<not> prefix '' '' s \<and> (\<forall>v \<in> set verbose. \<not> sublist v s)
      \<and> \<not> prefix ''sent'' s \<and> \<not> suffix ''/'' s"
    unfolding isFilename_def
    by (auto simp: HasPrefix_iff_prefix HasSuffix_iff_suffix Contains_iff_sublist list_ex_iff)
  have ex1: "isFilename ''some/path/file.txt''"
    by (simp add: isFilename_def verbose_def HasPrefix_def HasSuffix_def)
  have ex2: "\<not> isFilename ''sending incremental file list''"
    by (simp add: isFilename_def verbose_def HasPrefix_def HasSuffix_def)
  have sp: "0 < n \<longrightarrow> \<not> isFilename (replicate n (CHR '' '') @ r)"
    by (cases n) (simp_all add: isFilename_def HasPrefix_def)
  have sl: "\<not> isFilename (r @ ''/'')"
    by (simp add: isFilename_def HasSuffix_def)
  from iff ex1 ex2 sp sl show ?thesis
    by (simp add: verbose_def)
qed

theorem isFilename_spec_witness:
  "isFilename ''a b.txt'' \<and> \<not> isFilename '' a b.txt'' \<and> \<not> isFilename ''a b/''"
proof -
  have 1: "''a b.txt'' \<noteq> []" by simp
  have 2: "\<not> prefix '' '' ''a b.txt''" by simp
  have 3: "\<forall>v \<in> set verbose. \<not> sublist v ''a b.txt''"
    by (simp add: verbose_def Contains_iff_sublist [symmetric] HasPrefix_def)
  have 4: "\<not> prefix ''sent'' ''a b.txt''" by simp
  have 5: "\<not> suffix ''/'' ''a b.txt''"
    by (simp add: HasSuffix_iff_suffix [symmetric] HasSuffix_def)
  have a: "isFilename ''a b.txt''"
    using isFilename_spec [of "''a b.txt''" 0 "[]"] 1 2 3 4 5 by blast
  have "0 < Suc 0" by simp
  then have "\<not> isFilename (replicate (Suc 0) (CHR '' '') @ ''a b.txt'')"
    using isFilename_spec [of "[]" "Suc 0" "''a b.txt''"] by blast
  then have b: "\<not> isFilename '' a b.txt''" by simp
  have "\<not> isFilename (''a b'' @ ''/'')"
    using isFilename_spec [of "[]" 0 "''a b''"] by blast
  then have c: "\<not> isFilename ''a b/''" by simp
  from a b c show ?thesis by blast
qed

section \<open>Evaluation\<close>

lemma floor_rat_numeral_div: "\<lfloor>numeral a / numeral b :: rat\<rfloor> = numeral a div numeral b"
  by (metis floor_divide_of_int_eq of_int_numeral)

lemma floor_rat_neg_numeral_div:
  "\<lfloor>- (numeral a / numeral b) :: rat\<rfloor> = - numeral a div numeral b"
  by (metis divide_minus_left floor_divide_of_int_eq of_int_neg_numeral of_int_numeral)

lemma ceiling_rat_numeral_div:
  "\<lceil>numeral a / numeral b :: rat\<rceil> = - (- numeral a div numeral b)"
  by (simp add: ceiling_def floor_rat_neg_numeral_div)

lemmas f64_eval = round64_def round_mag_def quantum_def ilog2_def pow2_def round_even_def
  compute_floorlog floor_rat_numeral_div floor_rat_neg_numeral_div ceiling_rat_numeral_div
  float64_of_int_def wrap64_def maxPercents_def minDivider_def

lemmas re_eval = Match_def Extract_def ExtractAllStringSubmatch_def substr_def lits_def
  progressMatcher_def speedMatcher_def transferedMatcher_def rune_width_def in_range_def

lemmas tr_eval = units_def TrimSpace_def white_space_def int64_of_float64_def trunc_def
  float_chars_def

section \<open>One line of standard output\<close>

lemma Remain_line:
  "Remain (state (processLine pf task L)) =
     (if Match progressMatcher L then fst (getTaskProgress (Extract progressMatcher L))
      else Remain (state task))"
  by (simp add: processLine_def Let_def)

lemma Total_line:
  "Total (state (processLine pf task L)) =
     (if Match progressMatcher L then snd (getTaskProgress (Extract progressMatcher L))
      else Total (state task))"
  by (simp add: processLine_def Let_def)

lemma Progress_line:
  "Progress (state (processLine pf task L)) =
     (if Match progressMatcher L then
        fmul (fdiv (float64_of_int (wrap64 (snd (getTaskProgress (Extract progressMatcher L)) -
                                            fst (getTaskProgress (Extract progressMatcher L)))))
                (Max_float64 (float64_of_int (snd (getTaskProgress (Extract progressMatcher L))))
                   (float64_of_int minDivider)))
          maxPercents
      else Progress (state task))"
  by (simp add: processLine_def Let_def)

lemma Speed_line:
  "Speed (state (processLine pf task L)) =
     (if Match speedMatcher L then getTaskSpeed (ExtractAllStringSubmatch speedMatcher L 2)
      else Speed (state task))"
  by (simp add: processLine_def Let_def)

lemma TransferedBytes_line:
  "TransferedBytes (state (processLine pf task L)) =
     (if Match transferedMatcher L then fst (getTaskTransfered pf (Extract transferedMatcher L))
      else TransferedBytes (state task))"
  by (simp add: processLine_def Let_def)

lemma TransferedPercent_line:
  "TransferedPercent (state (processLine pf task L)) =
     (if Match transferedMatcher L then snd (getTaskTransfered pf (Extract transferedMatcher L))
      else TransferedPercent (state task))"
  by (simp add: processLine_def Let_def)

lemma Filename_line:
  "Filename (state (processLine pf task L)) =
     (if isFilename L then L else Filename (state task))"
  by (simp add: processLine_def Let_def)

text \<open>
  C9.  Processing a line a second time leaves every field of the state (remaining, total,
  progress, speed, transferred bytes, transferred percent, filename) as the first time
  left it: each field is either overwritten by a value computed from the line alone or
  left as it was.  Only the log grows.
\<close>

theorem processLine_idempotent:
  "state (processLine pf (processLine pf task L) L) = state (processLine pf task L)"
  by (simp add: processLine_def Let_def)

text \<open>
  C8.  On the sample line the speed matcher finds one match, \<open>999.99kB/s\<close>, whose first
  capture is the whole match; \<^verbatim>\<open>getTaskSpeed\<close> returns it, and processing the line
  stores it.  On a line the speed pattern does not match, the stored speed stays as it was.
\<close>

theorem speed_spec:
  "ExtractAllStringSubmatch speedMatcher
     ''999,999 99%  999.99kB/s    0:00:59 (xfr#9, to-chk=999/9999)'' 2
     = [[''999.99kB/s'', ''999.99kB/s'']] \<and>
   getTaskSpeed (ExtractAllStringSubmatch speedMatcher
     ''999,999 99%  999.99kB/s    0:00:59 (xfr#9, to-chk=999/9999)'' 2) = ''999.99kB/s'' \<and>
   Speed (state (processLine pf task
     ''999,999 99%  999.99kB/s    0:00:59 (xfr#9, to-chk=999/9999)'')) = ''999.99kB/s'' \<and>
   (\<not> Match speedMatcher L \<longrightarrow> Speed (state (processLine pf task L)) = Speed (state task))"
proof -
  let ?line = "''999,999 99%  999.99kB/s    0:00:59 (xfr#9, to-chk=999/9999)''"
  have all: "ExtractAllStringSubmatch speedMatcher ?line 2 = [[''999.99kB/s'', ''999.99kB/s'']]"
    by (simp add: re_eval eval_defs numeral_2_eq_2)
  have m: "Match speedMatcher ?line"
    by (simp add: re_eval eval_defs)
  have sp: "getTaskSpeed (ExtractAllStringSubmatch speedMatcher ?line 2) = ''999.99kB/s''"
    by (simp add: all getTaskSpeed_def)
  have st: "Speed (state (processLine pf task ?line)) = ''999.99kB/s''"
    by (simp add: processLine_def Let_def m sp)
  have un: "\<not> Match speedMatcher L \<longrightarrow> Speed (state (processLine pf task L)) = Speed (state task)"
    by (simp add: processLine_def Let_def)
  from all sp st un show ?thesis
    by blast
qed

theorem speed_spec_witness:
  "\<not> Match speedMatcher ''some/path/file.txt'' \<and>
   Speed (state (processLine \<lparr>ParseFloat_other = (\<lambda>s. NaN), int64_other = (\<lambda>f. 0)\<rparr>
     \<lparr>state = \<lparr>Remain = 0, Total = 0, Speed = ''1.00MB/s'', Progress = Fin 0, Filename = [],
          TransferedBytes = 0, TransferedPercent = 0\<rparr>,
      tlog = \<lparr>Stderr = [], Stdout = []\<rparr>\<rparr>
     ''some/path/file.txt'')) = ''1.00MB/s''"
proof -
  have n: "\<not> Match speedMatcher ''some/path/file.txt''"
    by (simp add: re_eval eval_defs)
  with speed_spec [of _ _ "''some/path/file.txt''"] show ?thesis
    by simp
qed

subsection \<open>The counter pattern\<close>

lemma rune_width_ascii: "byte c < 128 \<Longrightarrow> rune_width (c # xs) = 1"
  by (simp add: rune_width_def Let_def)

lemma rune_width_before_digit: "rune_width (c # CHR ''3'' # xs) = 1"
  by (simp add: rune_width_def in_range_def byte_def Let_def)

lemma trailer_rmatch:
  assumes "c \<noteq> LF"
  shows "rmatch progressMatcher (''(xfr#9, to-chk=12'' @ c # ''34)'') p (p, p) =
           Some (p + 20, p + 15, p + 20)"
  using assms
  by (simp add: progressMatcher_def lits_def rune_width_before_digit rune_width_ascii
      is_digit_def byte_def add.assoc)

lemma progressMatcher_needs_paren:
  "x \<noteq> CHR ''('' \<Longrightarrow> rmatch progressMatcher (x # xs) p cap = None"
  by (simp add: progressMatcher_def lits_def)

lemma Find_progress_skip:
  "CHR ''('' \<notin> set pre \<Longrightarrow>
     Find progressMatcher (pre @ y # ys) p = Find progressMatcher (y # ys) (p + length pre)"
proof (induction pre arbitrary: p)
  case Nil
  show ?case by (simp only: append_Nil list.size add_0_right)
next
  case (Cons a pre)
  then have a: "a \<noteq> CHR ''(''" and rest: "CHR ''('' \<notin> set pre"
    by auto
  from a have none: "rmatch progressMatcher (a # pre @ y # ys) p (p, p) = None"
    by (rule progressMatcher_needs_paren)
  have st: "Find progressMatcher ((a # pre) @ y # ys) p = Find progressMatcher (pre @ y # ys) (p + 1)"
    by (simp only: append_Cons Find.simps none option.case)
  have ih: "Find progressMatcher (pre @ y # ys) (p + 1) =
      Find progressMatcher (y # ys) (p + 1 + length pre)"
    using rest by (rule Cons.IH)
  have ar: "p + 1 + length pre = p + length (a # pre)"
    by simp
  show ?case
    by (simp only: st ih ar)
qed

lemma trailer_Find:
  assumes "CHR ''('' \<notin> set pre" "c \<noteq> LF"
  shows "Find progressMatcher (pre @ ''(xfr#9, to-chk=12'' @ c # ''34)'') 0 =
           Some (length pre, length pre + 20, length pre + 15, length pre + 20)"
proof -
  have "Find progressMatcher (pre @ ''(xfr#9, to-chk=12'' @ c # ''34)'') 0 =
      Find progressMatcher (''(xfr#9, to-chk=12'' @ c # ''34)'') (length pre)"
    using Find_progress_skip [OF assms(1), of "CHR ''(''" "''xfr#9, to-chk=12'' @ c # ''34)''" 0]
    by simp
  also have "\<dots> = Some (length pre, length pre + 20, length pre + 15, length pre + 20)"
    using trailer_rmatch [OF assms(2), of "length pre"] by simp
  finally show ?thesis .
qed

lemma trailer_Match:
  assumes "CHR ''('' \<notin> set pre" "c \<noteq> LF"
  shows "Match progressMatcher (pre @ ''(xfr#9, to-chk=12'' @ c # ''34)'')"
  using trailer_Find [OF assms] by (simp add: Match_def)

lemma trailer_Extract:
  assumes "CHR ''('' \<notin> set pre" "c \<noteq> LF"
  shows "Extract progressMatcher (pre @ ''(xfr#9, to-chk=12'' @ c # ''34)'') = ''12'' @ c # ''34''"
  using trailer_Find [OF assms] by (simp add: Extract_def substr_def)

lemma progress_0_0:
  "fmul (fdiv (float64_of_int (wrap64 (0 - 0)))
          (Max_float64 (float64_of_int 0) (float64_of_int minDivider))) maxPercents = Fin 0"
  by (simp add: f64_eval)

text \<open>
  C10.  The counter pattern takes any one character between the two runs of digits, not only
  \<open>/\<close>.  The line \<open>(xfr#9, to-chk=12.34)\<close> matches with the capture \<open>12.34\<close>, which has
  no \<open>/\<close> and so splits into fewer than two parts; the stored remaining and total counters
  and the progress value are all set to 0, whatever they were, and no other field changes.
  The same holds with any character \<open>c\<close> but a line feed in the place of the point, and with
  any text without an opening parenthesis before the trailer: the line matches, the capture
  is \<open>12c34\<close>, and unless \<open>c\<close> is \<open>/\<close> the counters and the progress value are set to 0.
  With \<open>/\<close> the counters are 12 and 34.
\<close>

theorem counter_any_separator:
  "Match progressMatcher ''(xfr#9, to-chk=12.34)'' \<and>
   Extract progressMatcher ''(xfr#9, to-chk=12.34)'' = ''12.34'' \<and>
   length (Split ''12.34'' (CHR ''/'')) < 2 \<and>
   getTaskProgress ''12.34'' = (0, 0) \<and>
   state (processLine pf task ''(xfr#9, to-chk=12.34)'') =
     (state task)\<lparr>Remain := 0, Total := 0, Progress := Fin 0\<rparr> \<and>
   (CHR ''('' \<notin> set pre \<and> c \<noteq> LF \<longrightarrow>
      Match progressMatcher (pre @ ''(xfr#9, to-chk=12'' @ [c] @ ''34)'') \<and>
      Extract progressMatcher (pre @ ''(xfr#9, to-chk=12'' @ [c] @ ''34)'') = ''12'' @ [c] @ ''34'') \<and>
   (CHR ''('' \<notin> set pre \<and> c \<noteq> LF \<and> c \<noteq> CHR ''/'' \<longrightarrow>
      length (Split (''12'' @ [c] @ ''34'') (CHR ''/'')) < 2 \<and>
      getTaskProgress (''12'' @ [c] @ ''34'') = (0, 0) \<and>
      Remain (state (processLine pf task (pre @ ''(xfr#9, to-chk=12'' @ [c] @ ''34)''))) = 0 \<and>
      Total (state (processLine pf task (pre @ ''(xfr#9, to-chk=12'' @ [c] @ ''34)''))) = 0 \<and>
      Progress (state (processLine pf task (pre @ ''(xfr#9, to-chk=12'' @ [c] @ ''34)''))) = Fin 0) \<and>
   (CHR ''('' \<notin> set pre \<longrightarrow>
      Remain (state (processLine pf task (pre @ ''(xfr#9, to-chk=12/34)''))) = 12 \<and>
      Total (state (processLine pf task (pre @ ''(xfr#9, to-chk=12/34)''))) = 34)"
proof -
  have m: "Match progressMatcher ''(xfr#9, to-chk=12.34)''"
    by (simp add: re_eval eval_defs)
  have e: "Extract progressMatcher ''(xfr#9, to-chk=12.34)'' = ''12.34''"
    by (simp add: re_eval eval_defs)
  have s: "length (Split ''12.34'' (CHR ''/'')) < 2"
    by simp
  have g: "getTaskProgress ''12.34'' = (0, 0)"
    by (simp add: getTaskProgress_def)
  have p: "state (processLine pf task ''(xfr#9, to-chk=12.34)'') =
      (state task)\<lparr>Remain := 0, Total := 0, Progress := Fin 0\<rparr>"
    unfolding processLine_def Let_def
    by (simp add: re_eval getTaskProgress_def eval_defs f64_eval isFilename_def verbose_def)
  have any: "Match progressMatcher (pre @ ''(xfr#9, to-chk=12'' @ [c] @ ''34)'') \<and>
      Extract progressMatcher (pre @ ''(xfr#9, to-chk=12'' @ [c] @ ''34)'') = ''12'' @ [c] @ ''34''"
    if "CHR ''('' \<notin> set pre \<and> c \<noteq> LF"
    using that trailer_Match [of pre c] trailer_Extract [of pre c] by simp
  have reset: "length (Split (''12'' @ [c] @ ''34'') (CHR ''/'')) < 2 \<and>
      getTaskProgress (''12'' @ [c] @ ''34'') = (0, 0) \<and>
      Remain (state (processLine pf task (pre @ ''(xfr#9, to-chk=12'' @ [c] @ ''34)''))) = 0 \<and>
      Total (state (processLine pf task (pre @ ''(xfr#9, to-chk=12'' @ [c] @ ''34)''))) = 0 \<and>
      Progress (state (processLine pf task (pre @ ''(xfr#9, to-chk=12'' @ [c] @ ''34)''))) = Fin 0"
    if h: "CHR ''('' \<notin> set pre \<and> c \<noteq> LF \<and> c \<noteq> CHR ''/''"
  proof -
    let ?L = "pre @ ''(xfr#9, to-chk=12'' @ [c] @ ''34)''"
    have mm: "Match progressMatcher ?L" and ee: "Extract progressMatcher ?L = ''12'' @ [c] @ ''34''"
      using any h by simp_all
    have "CHR ''/'' \<notin> set (''12'' @ [c] @ ''34'')"
      using h by auto
    then have sp: "Split (''12'' @ [c] @ ''34'') (CHR ''/'') = [''12'' @ [c] @ ''34'']"
      by (rule Split_no_sep)
    then have gg: "getTaskProgress (''12'' @ [c] @ ''34'') = (0, 0)"
      by (simp add: getTaskProgress_def)
    have "Remain (state (processLine pf task ?L)) = 0" "Total (state (processLine pf task ?L)) = 0"
      by (simp_all only: Remain_line Total_line mm ee gg if_True fst_conv snd_conv)
    moreover have "Progress (state (processLine pf task ?L)) = Fin 0"
      by (simp only: Progress_line mm ee gg if_True fst_conv snd_conv progress_0_0)
    ultimately show ?thesis
      using sp gg by simp
  qed
  have slash: "Remain (state (processLine pf task (pre @ ''(xfr#9, to-chk=12/34)''))) = 12 \<and>
      Total (state (processLine pf task (pre @ ''(xfr#9, to-chk=12/34)''))) = 34"
    if h: "CHR ''('' \<notin> set pre"
  proof -
    let ?L = "pre @ ''(xfr#9, to-chk=12/34)''"
    have "CHR ''/'' \<noteq> LF" by simp
    with h trailer_Match [of pre "CHR ''/''"] trailer_Extract [of pre "CHR ''/''"]
    have mm: "Match progressMatcher ?L" and ee: "Extract progressMatcher ?L = ''12/34''"
      by simp_all
    have gg: "getTaskProgress ''12/34'' = (12, 34)"
      by (simp add: getTaskProgress_def eval_defs)
    show ?thesis
      by (simp only: Remain_line Total_line mm ee gg if_True fst_conv snd_conv)
  qed
  from m e s g p any reset slash show ?thesis
    by blast
qed

theorem counter_any_separator_witness:
  "\<forall>pf task.
     Match progressMatcher ''999,999 99%  999.99kB/s    0:00:59 (xfr#9, to-chk=12x34)'' \<and>
     Extract progressMatcher ''999,999 99%  999.99kB/s    0:00:59 (xfr#9, to-chk=12x34)''
       = ''12x34'' \<and>
     Remain (state (processLine pf task
       ''999,999 99%  999.99kB/s    0:00:59 (xfr#9, to-chk=12x34)'')) = 0 \<and>
     Total (state (processLine pf task
       ''999,999 99%  999.99kB/s    0:00:59 (xfr#9, to-chk=12x34)'')) = 0 \<and>
     Progress (state (processLine pf task
       ''999,999 99%  999.99kB/s    0:00:59 (xfr#9, to-chk=12x34)'')) = Fin 0 \<and>
     Total (state (processLine pf task
       ''999,999 99%  999.99kB/s    0:00:59 (xfr#9, to-chk=12/34)'')) = 34"
proof (intro allI)
  fix pf task
  let ?pre = "''999,999 99%  999.99kB/s    0:00:59 ''"
  have h: "CHR ''('' \<notin> set ?pre \<and> CHR ''x'' \<noteq> LF \<and> CHR ''x'' \<noteq> CHR ''/''"
    by simp
  note spec = counter_any_separator [of pf task ?pre "CHR ''x''"]
  from spec h have
    "Match progressMatcher (?pre @ ''(xfr#9, to-chk=12'' @ [CHR ''x''] @ ''34)'') \<and>
     Extract progressMatcher (?pre @ ''(xfr#9, to-chk=12'' @ [CHR ''x''] @ ''34)'') =
       ''12'' @ [CHR ''x''] @ ''34'' \<and>
     Remain (state (processLine pf task (?pre @ ''(xfr#9, to-chk=12'' @ [CHR ''x''] @ ''34)''))) = 0 \<and>
     Total (state (processLine pf task (?pre @ ''(xfr#9, to-chk=12'' @ [CHR ''x''] @ ''34)''))) = 0 \<and>
     Progress (state (processLine pf task (?pre @ ''(xfr#9, to-chk=12'' @ [CHR ''x''] @ ''34)''))) = Fin 0 \<and>
     Total (state (processLine pf task (?pre @ ''(xfr#9, to-chk=12/34)''))) = 34"
    by blast
  then show
    "Match progressMatcher ''999,999 99%  999.99kB/s    0:00:59 (xfr#9, to-chk=12x34)'' \<and>
     Extract progressMatcher ''999,999 99%  999.99kB/s    0:00:59 (xfr#9, to-chk=12x34)''
       = ''12x34'' \<and>
     Remain (state (processLine pf task
       ''999,999 99%  999.99kB/s    0:00:59 (xfr#9, to-chk=12x34)'')) = 0 \<and>
     Total (state (processLine pf task
       ''999,999 99%  999.99kB/s    0:00:59 (xfr#9, to-chk=12x34)'')) = 0 \<and>
     Progress (state (processLine pf task
       ''999,999 99%  999.99kB/s    0:00:59 (xfr#9, to-chk=12x34)'')) = Fin 0 \<and>
     Total (state (processLine pf task
       ''999,999 99%  999.99kB/s    0:00:59 (xfr#9, to-chk=12/34)'')) = 34"
    by simp
qed

section \<open>Rounding to \<^verbatim>\<open>float64\<close>\<close>

lemma pow2_powi: "pow2 e = 2 powi e"
  by (simp add: pow2_def power_int_def inverse_eq_divide power_one_over)

lemma pow2_pos: "0 < pow2 e"
  by (simp add: pow2_powi)

lemma pow2_add: "pow2 (a + b) = pow2 a * pow2 b"
  by (simp add: pow2_powi power_int_add)

lemma pow2_mono: "a \<le> b \<Longrightarrow> pow2 a \<le> pow2 b"
  by (simp add: pow2_powi power_int_increasing)

lemma pow2_less_cancel: "pow2 a < pow2 b \<Longrightarrow> a < b"
  by (metis pow2_mono not_le)

lemma pow2_nat: "pow2 (int n) = 2 ^ n"
  by (simp add: pow2_def)

lemma pow2_less_1024: "e < 1024 \<Longrightarrow> pow2 e < pow2 1024"
  unfolding pow2_powi by (rule power_int_strict_increasing) simp_all

lemma pow2_times: "of_int (2 ^ n) * pow2 e = pow2 (e + int n)"
  by (simp add: pow2_add pow2_nat)

lemma pow2_quot: "pow2 (e + int n) / pow2 e = of_int (2 ^ n)"
  using pow2_pos [of e] by (simp add: pow2_add pow2_nat)

lemma pow2_quot_53: "pow2 (e + 1) / pow2 (e - 52) = of_int (2 ^ 53)"
proof -
  have "e + 1 = (e - 52) + int 53" by arith
  then have "pow2 (e + 1) = pow2 ((e - 52) + int 53)" by (rule arg_cong)
  then show ?thesis by (simp only: pow2_quot)
qed

lemma pow2_quot_52: "pow2 e / pow2 (e - 52) = of_int (2 ^ 52)"
proof -
  have "e = (e - 52) + int 52" by arith
  then have "pow2 e = pow2 ((e - 52) + int 52)" by (rule arg_cong)
  then show ?thesis by (simp only: pow2_quot)
qed

lemma pow2_times_53: "of_int (2 ^ 53) * pow2 (e - 52) = pow2 (e + 1)"
proof -
  have "e + 1 = (e - 52) + int 53" by arith
  then have "pow2 (e + 1) = pow2 ((e - 52) + int 53)" by (rule arg_cong)
  then show ?thesis by (simp only: pow2_times)
qed

lemma pow2_times_52: "of_int (2 ^ 52) * pow2 (e - 52) = pow2 e"
proof -
  have "e = (e - 52) + int 52" by arith
  then have "pow2 e = pow2 ((e - 52) + int 52)" by (rule arg_cong)
  then show ?thesis by (simp only: pow2_times)
qed

text \<open>\<open>ilog2 x\<close> is the binary exponent of a positive \<open>x\<close>.\<close>

lemma ilog2_bounds:
  assumes "0 < x"
  shows "pow2 (ilog2 x) \<le> x \<and> x < pow2 (ilog2 x + 1)"
proof (cases "1 \<le> x")
  case True
  define n where "n = nat \<lfloor>x\<rfloor>"
  define fl where "fl = floorlog 2 n"
  have n: "0 < n" "of_nat n \<le> x" "x < of_nat n + 1"
    using True by (auto simp: n_def le_floor_iff) linarith+
  from floorlog_bounds [of n 2] n have b: "2 ^ (fl - 1) \<le> n" "n < 2 ^ fl"
    by (auto simp: fl_def)
  then have fl: "0 < fl"
    using n by (cases fl) auto
  have i: "ilog2 x = int fl - 1"
    using True by (simp add: ilog2_def n_def fl_def)
  have "pow2 (ilog2 x) = 2 ^ (fl - 1)"
    using fl by (simp add: i pow2_def nat_diff_distrib)
  also have "\<dots> \<le> of_nat n"
    using b(1) by (metis of_nat_le_iff of_nat_numeral of_nat_power)
  finally have lo: "pow2 (ilog2 x) \<le> x"
    using n by linarith
  have "n + 1 \<le> 2 ^ fl"
    using b(2) by simp
  then have "(of_nat (n + 1) :: rat) \<le> 2 ^ fl"
    by (metis of_nat_le_iff of_nat_numeral of_nat_power)
  moreover have "pow2 (ilog2 x + 1) = 2 ^ fl"
    by (simp add: i pow2_def)
  ultimately have "x < pow2 (ilog2 x + 1)"
    using n by simp
  with lo show ?thesis ..
next
  case False
  define y where "y = 1 / x"
  define n where "n = nat (\<lceil>y\<rceil> - 1)"
  define fl where "fl = floorlog 2 n"
  have y: "1 < y"
    using assms False by (simp add: y_def)
  then have c: "2 \<le> \<lceil>y\<rceil>"
    by (simp add: le_ceiling_iff)
  then have n: "0 < n" "int n = \<lceil>y\<rceil> - 1"
    by (auto simp: n_def)
  have yb: "of_nat n < y" "y \<le> of_nat n + 1"
  proof -
    have "(of_int (int n) :: rat) < y"
      unfolding n(2) using ceiling_correct [of y] by simp
    then show "of_nat n < y" by simp
    have "y \<le> of_int (int n + 1)"
      unfolding n(2) by (simp add: le_of_int_ceiling)
    then show "y \<le> of_nat n + 1" by simp
  qed
  from floorlog_bounds [of n 2] n have b: "2 ^ (fl - 1) \<le> n" "n < 2 ^ fl"
    by (auto simp: fl_def)
  then have fl: "0 < fl"
    using n by (cases fl) auto
  have i: "ilog2 x = - int fl"
    using False by (simp add: ilog2_def n_def fl_def y_def)
  have "n + 1 \<le> 2 ^ fl"
    using b(2) by simp
  then have "(of_nat (n + 1) :: rat) \<le> 2 ^ fl"
    by (metis of_nat_le_iff of_nat_numeral of_nat_power)
  with yb have "y \<le> 2 ^ fl"
    by (simp only: of_nat_add of_nat_1)
  then have "1 / 2 ^ fl \<le> x"
    using assms by (simp add: y_def field_simps)
  moreover have "pow2 (ilog2 x) = 1 / 2 ^ fl"
    by (simp add: i pow2_def)
  ultimately have lo: "pow2 (ilog2 x) \<le> x"
    by simp
  have "(2 ^ (fl - 1) :: rat) \<le> of_nat n"
    using b(1) by (metis of_nat_le_iff of_nat_numeral of_nat_power)
  with yb have "2 ^ (fl - 1) < y"
    by linarith
  then have "x < 1 / 2 ^ (fl - 1)"
    using assms by (simp add: y_def field_simps)
  moreover have "pow2 (ilog2 x + 1) = 1 / 2 ^ (fl - 1)"
    using fl by (simp add: i pow2_def nat_diff_distrib)
  ultimately have "x < pow2 (ilog2 x + 1)"
    by simp
  with lo show ?thesis ..
qed

lemma ilog2_mono:
  assumes "0 < x" "x \<le> y"
  shows "ilog2 x \<le> ilog2 y"
proof -
  have "0 < y" using assms by simp
  from ilog2_bounds [OF assms(1)] ilog2_bounds [OF this] assms(2)
  have "pow2 (ilog2 x) < pow2 (ilog2 y + 1)"
    by linarith
  then show ?thesis
    by (auto dest: pow2_less_cancel)
qed

lemma round_even_floor: "\<lfloor>m\<rfloor> \<le> round_even m \<and> round_even m \<le> \<lfloor>m\<rfloor> + 1"
  by (simp add: round_even_def)

lemma round_even_of_int: "round_even (of_int k) = k"
  by (simp add: round_even_def)

lemma round_even_le: "m \<le> of_int k \<Longrightarrow> round_even m \<le> k"
proof (cases "m = of_int k")
  case True
  then show ?thesis by (simp add: round_even_of_int)
next
  case False
  assume "m \<le> of_int k"
  with False have "m < of_int k" by simp
  then have "\<lfloor>m\<rfloor> < k" by (simp add: floor_less_iff)
  with round_even_floor [of m] show ?thesis by linarith
qed

lemma round_even_ge: "of_int k \<le> m \<Longrightarrow> k \<le> round_even m"
proof -
  assume "of_int k \<le> m"
  then have "k \<le> \<lfloor>m\<rfloor>" by (simp add: le_floor_iff)
  with round_even_floor [of m] show ?thesis by linarith
qed

lemma round_even_mono:
  assumes "m \<le> n"
  shows "round_even m \<le> round_even n"
proof (cases "\<lfloor>m\<rfloor> < \<lfloor>n\<rfloor>")
  case True
  with round_even_floor [of m] round_even_floor [of n] show ?thesis by linarith
next
  case False
  with assms have "\<lfloor>m\<rfloor> = \<lfloor>n\<rfloor>"
    using floor_mono [of m n] by linarith
  with assms show ?thesis
    by (auto simp: round_even_def)
qed

lemma quantum_pos: "0 < quantum a"
  by (simp add: quantum_def pow2_pos)

lemma round_mag_nonneg: "0 \<le> a \<Longrightarrow> 0 \<le> round_mag a"
proof -
  assume "0 \<le> a"
  then have "of_int 0 \<le> a / quantum a"
    using quantum_pos [of a] by simp
  then have "0 \<le> round_even (a / quantum a)"
    by (rule round_even_ge)
  then show ?thesis
    using quantum_pos [of a] by (simp add: round_mag_def)
qed

text \<open>Rounding is monotone.\<close>

lemma round_mag_mono:
  assumes "0 < a" "a \<le> b"
  shows "round_mag a \<le> round_mag b"
proof -
  define ea where "ea = max (ilog2 a) (- 1022)"
  define eb where "eb = max (ilog2 b) (- 1022)"
  have b: "0 < b" using assms by simp
  have qa: "quantum a = pow2 (ea - 52)" and qb: "quantum b = pow2 (eb - 52)"
    by (simp_all add: quantum_def ea_def eb_def)
  have le: "ea \<le> eb"
    using ilog2_mono [OF assms] by (simp add: ea_def eb_def)
  show ?thesis
  proof (cases "ea = eb")
    case True
    then have q: "quantum a = quantum b" by (simp add: qa qb)
    have "a / quantum b \<le> b / quantum b"
      using assms quantum_pos [of b] by (simp add: divide_right_mono)
    then have "round_even (a / quantum b) \<le> round_even (b / quantum b)"
      by (rule round_even_mono)
    then show ?thesis
      using quantum_pos [of b] by (simp add: round_mag_def q)
  next
    case False
    with le have lt: "ea < eb" by simp
    then have eb: "eb = ilog2 b"
      by (auto simp: ea_def eb_def)
    have "a < pow2 (ilog2 a + 1)"
      using ilog2_bounds [OF assms(1)] by simp
    also have "\<dots> \<le> pow2 (ea + 1)"
      by (rule pow2_mono) (simp add: ea_def)
    finally have "a / quantum a \<le> pow2 (ea + 1) / pow2 (ea - 52)"
      using pow2_pos [of "ea - 52"] by (simp add: qa divide_right_mono)
    also have "pow2 (ea + 1) / pow2 (ea - 52) = of_int (2 ^ 53)"
      by (rule pow2_quot_53)
    finally have "round_even (a / quantum a) \<le> 2 ^ 53"
      by (rule round_even_le)
    then have "round_mag a \<le> of_int (2 ^ 53) * pow2 (ea - 52)"
      unfolding round_mag_def qa using pow2_pos [of "ea - 52"]
      by (intro mult_right_mono) (simp_all add: le_less)
    also have "\<dots> = pow2 (ea + 1)"
      by (rule pow2_times_53)
    also have "\<dots> \<le> pow2 eb"
      using lt by (intro pow2_mono) simp
    finally have upper: "round_mag a \<le> pow2 eb" .
    have "pow2 eb \<le> b"
      using ilog2_bounds [OF b] by (simp add: eb)
    then have "pow2 eb / pow2 (eb - 52) \<le> b / quantum b"
      using pow2_pos [of "eb - 52"] by (simp add: qb divide_right_mono)
    moreover have "pow2 eb / pow2 (eb - 52) = of_int (2 ^ 52)"
      by (rule pow2_quot_52)
    ultimately have "2 ^ 52 \<le> round_even (b / quantum b)"
      by (intro round_even_ge) simp
    then have "of_int (2 ^ 52) * pow2 (eb - 52) \<le> round_mag b"
      unfolding round_mag_def qb using pow2_pos [of "eb - 52"]
      by (intro mult_right_mono) (simp_all add: le_less)
    moreover have "of_int (2 ^ 52) * pow2 (eb - 52) = pow2 eb"
      by (rule pow2_times_52)
    ultimately show ?thesis
      using upper by linarith
  qed
qed

text \<open>A number with a significand below \<open>2\<^sup>5\<^sup>3\<close> rounds to itself.\<close>

lemma round_mag_exact:
  assumes "0 < k" "k < 2 ^ 53" "- 1074 \<le> j"
  shows "round_mag (of_int k * pow2 j) = of_int k * pow2 j"
proof -
  define a where "a = of_int k * pow2 j"
  define e where "e = max (ilog2 a) (- 1022)"
  have a: "0 < a"
    using assms(1) pow2_pos [of j] by (simp add: a_def)
  have "(of_int k :: rat) < of_int (2 ^ 53)"
    using assms(2) by (simp only: of_int_less_iff)
  then have "a < of_int (2 ^ 53) * pow2 j"
    unfolding a_def using pow2_pos [of j] by (rule mult_strict_right_mono)
  also have "\<dots> = pow2 (j + 53)"
    by (simp only: pow2_times of_nat_numeral)
  finally have "pow2 (ilog2 a) < pow2 (j + 53)"
    using ilog2_bounds [OF a] by linarith
  then have "ilog2 a < j + 53"
    by (rule pow2_less_cancel)
  with assms(3) have d: "0 \<le> j + 52 - e"
    by (simp add: e_def)
  have q: "quantum a = pow2 (e - 52)"
    by (simp add: quantum_def e_def)
  have s: "pow2 j = pow2 (e - 52) * of_int (2 ^ nat (j + 52 - e))"
    using pow2_times [of "nat (j + 52 - e)" "e - 52"] d by (simp add: mult.commute)
  have "a = of_int (k * 2 ^ nat (j + 52 - e)) * pow2 (e - 52)"
    unfolding a_def by (simp add: s)
  then have "a / quantum a = of_int (k * 2 ^ nat (j + 52 - e))"
    unfolding q using pow2_pos [of "e - 52"] by simp
  then have "round_even (a / quantum a) = k * 2 ^ nat (j + 52 - e)"
    by (simp only: round_even_of_int)
  then have "round_mag a = of_int (k * 2 ^ nat (j + 52 - e)) * pow2 (e - 52)"
    by (simp add: round_mag_def q)
  also have "\<dots> = a"
    unfolding a_def by (simp add: s)
  finally show ?thesis
    by (simp add: a_def)
qed

lemma round64_bounded:
  assumes "0 \<le> x" "x \<le> of_int k * pow2 j" "0 < k" "k < 2 ^ 53" "- 1074 \<le> j"
    and "of_int k * pow2 j < pow2 1024"
  shows "\<exists>r. round64 x = Fin r \<and> 0 \<le> r \<and> r \<le> of_int k * pow2 j"
proof (cases "x = 0")
  case True
  then show ?thesis
    using assms(3) pow2_pos [of j] by (simp add: round64_def)
next
  case False
  with assms(1) have x: "0 < x" by simp
  have "round_mag x \<le> round_mag (of_int k * pow2 j)"
    using x assms(2) by (rule round_mag_mono)
  also have "\<dots> = of_int k * pow2 j"
    using assms(3-5) by (rule round_mag_exact)
  finally have le: "round_mag x \<le> of_int k * pow2 j" .
  with assms(6) have "\<not> pow2 1024 \<le> round_mag x" by simp
  then have "round64 x = Fin (round_mag x)"
    using x by (simp add: round64_def)
  moreover have "0 \<le> round_mag x"
    using x by (intro round_mag_nonneg) simp
  ultimately show ?thesis
    using le by blast
qed

lemma round64_exact:
  assumes "0 \<le> k" "k < 2 ^ 53" "- 1074 \<le> j" "of_int k * pow2 j < pow2 1024"
  shows "round64 (of_int k * pow2 j) = Fin (of_int k * pow2 j)"
proof (cases "k = 0")
  case True
  then show ?thesis by (simp add: round64_def)
next
  case False
  with assms(1) have k: "0 < k" by simp
  then have pos: "0 < of_int k * pow2 j"
    using pow2_pos [of j] by simp
  have "round_mag (of_int k * pow2 j) = of_int k * pow2 j"
    using k assms(2,3) by (rule round_mag_exact)
  then show ?thesis
    using pos assms(4) by (simp add: round64_def)
qed

lemma round64_mono:
  assumes "0 \<le> x" "x \<le> y" "round64 y = Fin ry"
  shows "\<exists>rx. round64 x = Fin rx \<and> 0 \<le> rx \<and> rx \<le> ry"
proof (cases "x = 0")
  case True
  have "0 \<le> ry"
  proof (cases "y = 0")
    case True
    with assms(3) show ?thesis by (simp add: round64_def)
  next
    case False
    with assms True have y: "0 < y" by simp
    with assms(3) have "ry = round_mag y"
      by (auto simp: round64_def split: if_splits)
    then show ?thesis
      using y by (simp add: round_mag_nonneg)
  qed
  with True show ?thesis by (simp add: round64_def)
next
  case False
  with assms(1) have x: "0 < x" by simp
  with assms(2) have y: "0 < y" by simp
  with assms(3) have ry: "ry = round_mag y" "\<not> pow2 1024 \<le> round_mag y"
    by (auto simp: round64_def split: if_splits)
  have le: "round_mag x \<le> round_mag y"
    using x assms(2) by (rule round_mag_mono)
  with ry have "round64 x = Fin (round_mag x)"
    using x by (simp add: round64_def)
  moreover have "0 \<le> round_mag x"
    using x by (intro round_mag_nonneg) simp
  ultimately show ?thesis
    using le ry by blast
qed

lemma round64_minus_Fin: "round64 x = Fin r \<Longrightarrow> round64 (- x) = Fin (- r)"
  by (auto simp: round64_def split: if_splits)

end
